theory Spec2Isabelle
  imports Complex_Main "HOL-Library.FSet" "HOL-Library.Sublist" "HOL-Library.Monad_Syntax"
    "HOL-Library.Log_Nat"
begin

section \<open>JavaScript numbers\<close>

text \<open>
  The development embeds the class \<open>GridApp\<close>. The arithmetic of \<open>getGridPosition\<close>
  is that of JavaScript: IEEE 754 binary64, every operation rounded to the nearest
  double with ties to the even mantissa, overflow to an infinity, and NaN for the
  undefined cases. A finite double is the real number it denotes. The sign of a zero
  is not modelled: the divisors of the program (the bounding box's width and height,
  and the constant cell sizes) are never a negative zero, and everywhere else the two
  zeros behave alike.
\<close>

datatype jsnum = Num real | PosInf | NegInf | NaN

text \<open>The exponent \<open>e\<close> of a positive number: \<open>2^e \<le> y < 2^(e+1)\<close>.\<close>

definition binade :: "real \<Rightarrow> int" where
  "binade y =
     (if 1 \<le> y then int (floorlog 2 (nat \<lfloor>y\<rfloor>)) - 1
      else - int (floorlog 2 (nat (\<lceil>1 / y\<rceil> - 1))))"

text \<open>Rounding to the nearest integer, a tie to the even one.\<close>

definition rne :: "real \<Rightarrow> int" where
  "rne q =
     (let f = \<lfloor>q\<rfloor>; d = q - of_int f
      in if d < 1 / 2 then f else if 1 / 2 < d then f + 1 else if even f then f else f + 1)"

definition overflow_bound :: real where
  "overflow_bound = 2 ^ 1024"

text \<open>
  The double nearest to a real number: 53 bits of mantissa, exponents from -1022 (below
  it the spacing stays \<open>2^-1074\<close>: subnormal numbers), and an infinity when the rounded
  magnitude reaches \<open>2^1024\<close>.
\<close>

definition round64 :: "real \<Rightarrow> jsnum" where
  "round64 x =
     (if x = 0 then Num 0
      else
        let e = max (binade \<bar>x\<bar>) (- 1022);
            u = 2 powi (e - 52);
            r = of_int (rne (x / u)) * u
        in if overflow_bound \<le> \<bar>r\<bar> then (if 0 < x then PosInf else NegInf) else Num r)"

fun js_add :: "jsnum \<Rightarrow> jsnum \<Rightarrow> jsnum" where
  "js_add (Num a) (Num b) = round64 (a + b)"
| "js_add NaN _ = NaN"
| "js_add _ NaN = NaN"
| "js_add PosInf NegInf = NaN"
| "js_add NegInf PosInf = NaN"
| "js_add PosInf _ = PosInf"
| "js_add _ PosInf = PosInf"
| "js_add NegInf _ = NegInf"
| "js_add _ NegInf = NegInf"

fun js_sub :: "jsnum \<Rightarrow> jsnum \<Rightarrow> jsnum" where
  "js_sub (Num a) (Num b) = round64 (a - b)"
| "js_sub NaN _ = NaN"
| "js_sub _ NaN = NaN"
| "js_sub PosInf PosInf = NaN"
| "js_sub NegInf NegInf = NaN"
| "js_sub PosInf _ = PosInf"
| "js_sub _ NegInf = PosInf"
| "js_sub NegInf _ = NegInf"
| "js_sub _ PosInf = NegInf"

fun js_mul :: "jsnum \<Rightarrow> jsnum \<Rightarrow> jsnum" where
  "js_mul (Num a) (Num b) = round64 (a * b)"
| "js_mul NaN _ = NaN"
| "js_mul _ NaN = NaN"
| "js_mul (Num a) PosInf = (if 0 < a then PosInf else if a < 0 then NegInf else NaN)"
| "js_mul (Num a) NegInf = (if 0 < a then NegInf else if a < 0 then PosInf else NaN)"
| "js_mul PosInf (Num b) = (if 0 < b then PosInf else if b < 0 then NegInf else NaN)"
| "js_mul NegInf (Num b) = (if 0 < b then NegInf else if b < 0 then PosInf else NaN)"
| "js_mul PosInf PosInf = PosInf"
| "js_mul NegInf NegInf = PosInf"
| "js_mul PosInf NegInf = NegInf"
| "js_mul NegInf PosInf = NegInf"

text \<open>Division; a zero divisor is the positive zero.\<close>

fun js_div :: "jsnum \<Rightarrow> jsnum \<Rightarrow> jsnum" where
  "js_div (Num a) (Num b) =
     (if b = 0 then (if 0 < a then PosInf else if a < 0 then NegInf else NaN)
      else round64 (a / b))"
| "js_div NaN _ = NaN"
| "js_div _ NaN = NaN"
| "js_div (Num a) PosInf = Num 0"
| "js_div (Num a) NegInf = Num 0"
| "js_div PosInf (Num b) = (if 0 \<le> b then PosInf else NegInf)"
| "js_div NegInf (Num b) = (if 0 \<le> b then NegInf else PosInf)"
| "js_div _ _ = NaN"

text \<open>\<open>Math.floor\<close>.\<close>

fun js_floor :: "jsnum \<Rightarrow> jsnum" where
  "js_floor (Num a) = Num (of_int \<lfloor>a\<rfloor>)"
| "js_floor v = v"

text \<open>The comparisons \<open><\<close> and \<open><=\<close>: false whenever an operand is NaN.\<close>

fun js_less :: "jsnum \<Rightarrow> jsnum \<Rightarrow> bool" where
  "js_less (Num a) (Num b) = (a < b)"
| "js_less NaN _ = False"
| "js_less _ NaN = False"
| "js_less NegInf NegInf = False"
| "js_less NegInf _ = True"
| "js_less PosInf _ = False"
| "js_less _ PosInf = True"
| "js_less _ NegInf = False"

fun js_le :: "jsnum \<Rightarrow> jsnum \<Rightarrow> bool" where
  "js_le (Num a) (Num b) = (a \<le> b)"
| "js_le NaN _ = False"
| "js_le _ NaN = False"
| "js_le NegInf _ = True"
| "js_le _ PosInf = True"
| "js_le _ _ = False"

section \<open>The 3x3 grid application: data model\<close>

text \<open>An \<open>HTMLImageElement\<close> after its \<open>onload\<close>: the fields the program sets or reads.\<close>

record image =
  img_src :: string
  img_crossOrigin :: bool
  img_width :: nat
  img_height :: nat

text \<open>
  What the browser does with an image whose \<open>src\<close> was set: it calls \<open>onload\<close>
  (with the decoded width and height), it calls \<open>onerror\<close>, or it calls neither
  (there is no timeout in the program).
\<close>

datatype load_outcome = Loaded nat nat | Failed | Hung

record dom_rect =
  rect_left :: real
  rect_top :: real
  rect_width :: real
  rect_height :: real

record js_file =
  file_type :: string
  file_bytes :: string

text \<open>
  The browser, as far as the program calls it: the canvas element's bitmap size and
  bounding box, image loading by source and CORS mode, \<open>FileReader.readAsDataURL\<close>
  (\<open>None\<close>: the reader fails, and \<open>onload\<close> never fires), \<open>encodeURIComponent\<close>
  (\<open>None\<close>: it throws \<open>URIError\<close>), the \<open>src\<close> of the first \<open>img\<close> element of a
  parsed HTML string (\<open>None\<close>: no such element), and \<open>canvas.toDataURL\<close>
  (\<open>None\<close>: it throws). The numbers of the bounding box and of an event are finite
  doubles.
\<close>

record browser =
  boundingClientRect :: dom_rect
  canvas_width :: nat
  canvas_height :: nat
  imageLoad :: "string \<Rightarrow> bool \<Rightarrow> load_outcome"
  readAsDataURL :: "js_file \<Rightarrow> string option"
  encodeURIComponent :: "string \<Rightarrow> string option"
  parseFirstImgSrc :: "string \<Rightarrow> string option"
  toDataURL :: "string \<Rightarrow> string option"

record pointer_event =
  clientX :: real
  clientY :: real

record data_transfer =
  files :: "js_file list"
  getData :: "string \<Rightarrow> string"

record drag_event = pointer_event +
  dataTransfer :: "data_transfer option"

text \<open>
  The index under which the program stores an image or a taint mark: the number of a
  cell, or NaN, which the range test of \<open>handleDrop\<close> lets through.
\<close>

datatype js_index = Cell nat | NotANumber

text \<open>
  The array \<open>images\<close>: its elements, and the property named \<open>NaN\<close> that an assignment
  \<open>images[NaN] = img\<close> creates on the array object (no element changes, and the length
  stays).
\<close>

record image_array =
  slots :: "image option list"
  nan_property :: "image option"

text \<open>The mutable fields of \<open>GridApp\<close>.\<close>

record grid_app =
  images :: image_array
  taintedIndices :: "js_index fset"
  pendingCellIndex :: "js_index option"

definition gridWidth :: real where "gridWidth = 900"
definition gridHeight :: real where "gridHeight = 1200"
definition cellWidth :: real where "cellWidth = 300"
definition cellHeight :: real where "cellHeight = 400"

text \<open>The state the constructor leaves: \<open>new Array(9).fill(null)\<close>, an empty set, \<open>null\<close>.\<close>

definition init_app :: grid_app where
  "init_app =
     \<lparr>images = \<lparr>slots = replicate 9 None, nan_property = None\<rparr>,
      taintedIndices = {||}, pendingCellIndex = None\<rparr>"

text \<open>How an asynchronous function ends: its promise resolves, rejects or never settles.\<close>

datatype promise = Resolved | Rejected | Pending

text \<open>One drawing call on the 2D context.\<close>

record cover_fit =
  cf_r :: real
  cf_ar :: real
  cf_nw :: real
  cf_nh :: real
  cf_cx :: real
  cf_cy :: real
  cf_cw :: real
  cf_ch :: real

datatype canvas_op =
    FillRect string real real real real
  | DrawImage image "cover_fit option" real real real real
  | FillText string string real real
  | StrokeLine real real real real

text \<open>What the user or the console sees.\<close>

datatype effect =
    Alert string
  | ConsoleLog string
  | ConsoleError string
  | FilePickerOpened
  | Download string string
  | Draw "canvas_op list"

section \<open>Grid addressing\<close>

text \<open>
  \<open>getGridPosition\<close>, operation by operation as in the source. With an empty bounding
  box the scale is an infinity or NaN, and so are the results.
\<close>

record grid_position =
  col :: jsnum
  row :: jsnum
  index :: jsnum

definition getGridPosition :: "browser \<Rightarrow> real \<Rightarrow> real \<Rightarrow> grid_position" where
  "getGridPosition b cX cY =
     (let rect = boundingClientRect b;
          scaleX = js_div (Num (real (canvas_width b))) (Num (rect_width rect));
          scaleY = js_div (Num (real (canvas_height b))) (Num (rect_height rect));
          x = js_mul (js_sub (Num cX) (Num (rect_left rect))) scaleX;
          y = js_mul (js_sub (Num cY) (Num (rect_top rect))) scaleY;
          c = js_floor (js_div x (Num cellWidth));
          r = js_floor (js_div y (Num cellHeight));
          i = js_add (js_mul r (Num 3)) c
      in \<lparr>col = c, row = r, index = i\<rparr>)"

text \<open>
  The key that an index has once it passed a range test of a handler: a finite index is
  then an integer from 0 to 8 (the index is a sum of rounded integers), and the only
  other value that passes a test is NaN.
\<close>

definition toIndex :: "jsnum \<Rightarrow> js_index" where
  "toIndex v = (case v of Num a \<Rightarrow> Cell (nat \<lfloor>a\<rfloor>) | _ \<Rightarrow> NotANumber)"

section \<open>The compositor\<close>

definition jsdiv :: "real \<Rightarrow> real \<Rightarrow> real option" where
  "jsdiv a b = (if b = 0 then None else Some (a / b))"

text \<open>
  \<open>drawImageProp\<close>: the locals at the call of \<open>ctx.drawImage\<close>; the context and the
  target corner \<open>x\<close>, \<open>y\<close> are only passed on to that call. The offsets are the
  constants 0.5, which the four clamping tests leave as they are. The arithmetic of this
  function is modelled over the real numbers, without rounding. The result is \<open>None\<close>
  when a division by zero occurs (for the cell size that \<open>draw\<close> passes: when the image
  has width or height 0); JavaScript goes on with infinities and NaN, which the model
  does not follow.
\<close>

definition drawImageProp :: "image \<Rightarrow> real \<Rightarrow> real \<Rightarrow> cover_fit option" where
  "drawImageProp img w h =
     (let offsetX = 1 / 2; offsetY = 1 / 2;
          offsetX = (if offsetX < 0 then 0 else offsetX);
          offsetY = (if offsetY < 0 then 0 else offsetY);
          offsetX = (if offsetX > 1 then 1 else offsetX);
          offsetY = (if offsetY > 1 then 1 else offsetY);
          iw = real (img_width img);
          ih = real (img_height img)
      in do {
        qw \<leftarrow> jsdiv w iw;
        qh \<leftarrow> jsdiv h ih;
        let r = min qw qh;
        let nw = iw * r;
        let nh = ih * r;
        let ar = 1;
        ar \<leftarrow> (if nw < w then jsdiv w nw else Some ar);
        ar \<leftarrow> (if \<bar>ar - 1\<bar> < 1 / 10 ^ 14 \<and> nh < h then jsdiv h nh else Some ar);
        let nw = nw * ar;
        let nh = nh * ar;
        sw \<leftarrow> jsdiv nw w;
        cw \<leftarrow> jsdiv iw sw;
        sh \<leftarrow> jsdiv nh h;
        ch \<leftarrow> jsdiv ih sh;
        let cx = (iw - cw) * offsetX;
        let cy = (ih - ch) * offsetY;
        let cx = (if cx < 0 then 0 else cx);
        let cy = (if cy < 0 then 0 else cy);
        let cw = (if cw > iw then iw else cw);
        let ch = (if ch > ih then ih else ch);
        Some \<lparr>cf_r = r, cf_ar = ar, cf_nw = nw, cf_nh = nh,
               cf_cx = cx, cf_cy = cy, cf_cw = cw, cf_ch = ch\<rparr>
      })"

text \<open>
  Reading \<open>this.images[i]\<close>: beyond the array's length the read is \<open>undefined\<close>, which
  is falsy; at NaN it is the property of that name.
\<close>

fun array_get :: "image_array \<Rightarrow> js_index \<Rightarrow> image option" where
  "array_get a (Cell i) = (if i < length (slots a) then slots a ! i else None)"
| "array_get a NotANumber = nan_property a"

text \<open>
  Writing \<open>this.images[i] = img\<close>: beyond the array's length the array grows; at NaN
  the property is set.
\<close>

fun array_set :: "image_array \<Rightarrow> js_index \<Rightarrow> image \<Rightarrow> image_array" where
  "array_set a (Cell i) v =
     a\<lparr>slots :=
         (if i < length (slots a) then (slots a)[i := Some v]
          else slots a @ replicate (i - length (slots a)) None @ [Some v])\<rparr>"
| "array_set a NotANumber v = a\<lparr>nan_property := Some v\<rparr>"

definition drawCell :: "grid_app \<Rightarrow> nat \<Rightarrow> canvas_op list" where
  "drawCell s i =
     (case array_get (images s) (Cell i) of
        None \<Rightarrow> []
      | Some img \<Rightarrow>
          let c = i mod 3; r = i div 3;
              x = real c * cellWidth; y = real r * cellHeight
          in DrawImage img (drawImageProp img cellWidth cellHeight) x y cellWidth cellHeight
             # (if Cell i |\<in>| taintedIndices s
                then [FillRect ''rgba(255, 0, 0, 0.7)'' (x + cellWidth - 40) (y + 10) 30 30,
                      FillText ''#fff'' ''!'' (x + cellWidth - 25) (y + 25)]
                else []))"

definition draw :: "grid_app \<Rightarrow> canvas_op list" where
  "draw s =
     FillRect ''#1a1b1e'' 0 0 gridWidth gridHeight
     # concat (map (drawCell s) [0..<9])
     @ map (\<lambda>i. StrokeLine (real i * cellWidth) 0 (real i * cellWidth) gridHeight) [1..<3]
     @ map (\<lambda>i. StrokeLine 0 (real i * cellHeight) gridWidth (real i * cellHeight)) [1..<3]
     @ (if list_all (\<lambda>img. img = None) (slots (images s))
        then map (\<lambda>i. FillText ''#666'' ''Click/Drop''
                        (real (i mod 3) * cellWidth + cellWidth / 2)
                        (real (i div 3) * cellHeight + cellHeight / 2)) [0..<9]
        else [])"

definition taintedNotice :: string where
  "taintedNotice =
     ''Cannot download: Images marked with '' @ [CHR 0x27] @ ''!'' @ [CHR 0x27]
     @ '' are protected by security policies (CORS). '' @ [CHR 0x0A]
     @ ''      '' @ [CHR 0x0A]
     @ ''Please save these images to your computer first, then drag the file into the square.''"

definition exportBlockedNotice :: string where
  "exportBlockedNotice = ''Cannot download: One or more images may be protected by CORS policies.''"

text \<open>
  \<open>downloadImage\<close> changes no field of the application; it returns what the user sees.
  \<open>Download name href\<close> is the click on the temporary link with that \<open>download\<close>
  attribute and \<open>href\<close>.
\<close>

definition downloadImage :: "browser \<Rightarrow> grid_app \<Rightarrow> effect list" where
  "downloadImage b s =
     (if fcard (taintedIndices s) > 0 then [Alert taintedNotice]
      else
        case toDataURL b ''image/png'' of
          Some href \<Rightarrow> [Download ''3x3-grid.png'' href]
        | None \<Rightarrow> [Alert exportBlockedNotice, ConsoleError ''toDataURL''])"

section \<open>Image acquisition\<close>

definition setImage :: "grid_app \<Rightarrow> js_index \<Rightarrow> image \<Rightarrow> grid_app" where
  "setImage s i img = s\<lparr>images := array_set (images s) i img\<rparr>"

text \<open>
  \<open>loadImage\<close>: a new image element, \<open>crossOrigin\<close> set when \<open>useCors\<close>, then \<open>src\<close>.
  \<open>onload\<close> stores the element in the slot and resolves; \<open>onerror\<close> rejects.
\<close>

definition loadImage :: "browser \<Rightarrow> grid_app \<Rightarrow> string \<Rightarrow> js_index \<Rightarrow> bool \<Rightarrow> promise \<times> grid_app" where
  "loadImage b s src i useCors =
     (case imageLoad b src useCors of
        Loaded iw ih \<Rightarrow>
          (Resolved,
           s\<lparr>images := array_set (images s) i
                \<lparr>img_src = src, img_crossOrigin = useCors, img_width = iw, img_height = ih\<rparr>\<rparr>)
      | Failed \<Rightarrow> (Rejected, s)
      | Hung \<Rightarrow> (Pending, s))"

text \<open>
  \<open>loadImageFromFile\<close>: the reader has an \<open>onload\<close> handler only, so a failing read
  leaves the promise pending. The image is created without \<open>crossOrigin\<close>.
\<close>

definition loadImageFromFile ::
    "browser \<Rightarrow> grid_app \<Rightarrow> js_file \<Rightarrow> js_index \<Rightarrow> promise \<times> grid_app \<times> effect list" where
  "loadImageFromFile b s f i =
     (case readAsDataURL b f of
        None \<Rightarrow> (Pending, s, [])
      | Some dataUrl \<Rightarrow>
          (case imageLoad b dataUrl False of
             Loaded iw ih \<Rightarrow>
               let img = \<lparr>img_src = dataUrl, img_crossOrigin = False,
                          img_width = iw, img_height = ih\<rparr>;
                   s1 = setImage s i img;
                   s2 = s1\<lparr>taintedIndices := taintedIndices s1 |-| {|i|}\<rparr>
               in (Resolved, s2, [Draw (draw s2)])
           | Failed \<Rightarrow> (Rejected, s, [])
           | Hung \<Rightarrow> (Pending, s, [])))"

definition proxyPrefix :: string where
  "proxyPrefix = ''https://images.weserv.nl/?url=''"

text \<open>The third stage of \<open>loadImageFromUrl\<close> and the redraw after it.\<close>

definition loadStage3 ::
    "browser \<Rightarrow> grid_app \<Rightarrow> string \<Rightarrow> js_index \<Rightarrow> effect list \<Rightarrow> promise \<times> grid_app \<times> effect list" where
  "loadStage3 b s url i fx =
     (case loadImage b s url i False of
        (Resolved, s1) \<Rightarrow>
          let s2 = s1\<lparr>taintedIndices := finsert i (taintedIndices s1)\<rparr>
          in (Resolved, s2, fx @ [Draw (draw s2)])
      | (Rejected, s1) \<Rightarrow>
          (Resolved, s1, fx @ [ConsoleError ''All loading attempts failed'', Draw (draw s1)])
      | (Pending, s1) \<Rightarrow> (Pending, s1, fx))"

text \<open>
  The second stage and what follows it; a throwing \<open>encodeURIComponent\<close> is caught
  like a failed load.
\<close>

definition loadStage2 ::
    "browser \<Rightarrow> grid_app \<Rightarrow> string \<Rightarrow> js_index \<Rightarrow> effect list \<Rightarrow> promise \<times> grid_app \<times> effect list" where
  "loadStage2 b s url i fx =
     (let fx2 = fx @ [ConsoleLog ''Proxy failed, falling back to tainted mode...'']
      in case encodeURIComponent b url of
           None \<Rightarrow> loadStage3 b s url i fx2
         | Some enc \<Rightarrow>
             (case loadImage b s (proxyPrefix @ enc) i True of
                (Resolved, s1) \<Rightarrow>
                  (Resolved, s1\<lparr>taintedIndices := taintedIndices s1 |-| {|i|}\<rparr>, fx)
              | (Rejected, s1) \<Rightarrow> loadStage3 b s1 url i fx2
              | (Pending, s1) \<Rightarrow> (Pending, s1, fx)))"

definition loadImageFromUrl ::
    "browser \<Rightarrow> grid_app \<Rightarrow> string \<Rightarrow> js_index \<Rightarrow> promise \<times> grid_app \<times> effect list" where
  "loadImageFromUrl b s url i =
     (case loadImage b s url i True of
        (Resolved, s1) \<Rightarrow>
          (Resolved, s1\<lparr>taintedIndices := taintedIndices s1 |-| {|i|}\<rparr>, [])
      | (Rejected, s1) \<Rightarrow>
          loadStage2 b s1 url i [ConsoleLog ''Direct CORS failed, trying proxy...'']
      | (Pending, s1) \<Rightarrow> (Pending, s1, []))"

section \<open>Event handlers\<close>

definition handleClick :: "browser \<Rightarrow> grid_app \<Rightarrow> pointer_event \<Rightarrow> grid_app \<times> effect list" where
  "handleClick b s e =
     (let idx = index (getGridPosition b (clientX e) (clientY e))
      in if js_le (Num 0) idx \<and> js_le idx (Num 8)
         then (s\<lparr>pendingCellIndex := Some (toIndex idx)\<rparr>, [FilePickerOpened])
         else (s, []))"

text \<open>
  \<open>handleFileSelect\<close>: the assignment \<open>pendingCellIndex = null\<close> stands after the
  \<open>await\<close>, so it runs only when the load resolves (or no file was chosen).
\<close>

definition handleFileSelect ::
    "browser \<Rightarrow> grid_app \<Rightarrow> js_file list \<Rightarrow> promise \<times> grid_app \<times> effect list" where
  "handleFileSelect b s fs =
     (case pendingCellIndex s of
        None \<Rightarrow> (Resolved, s, [])
      | Some i \<Rightarrow>
          (case fs of
             [] \<Rightarrow> (Resolved, s\<lparr>pendingCellIndex := None\<rparr>, [])
           | f # _ \<Rightarrow>
               (case loadImageFromFile b s f i of
                  (Resolved, s1, fx) \<Rightarrow> (Resolved, s1\<lparr>pendingCellIndex := None\<rparr>, fx)
                | (Rejected, s1, fx) \<Rightarrow> (Rejected, s1, fx)
                | (Pending, s1, fx) \<Rightarrow> (Pending, s1, fx))))"

text \<open>
  The source string that a drop without files resolves to (the \<open>else\<close> branch of
  \<open>handleDrop\<close>); the empty string is JavaScript's falsy string.
\<close>

definition dropSource :: "browser \<Rightarrow> data_transfer \<Rightarrow> string" where
  "dropSource b dt =
     (let html = getData dt ''text/html'';
          uri = getData dt ''text/uri-list'';
          text = getData dt ''text/plain'';
          src = [];
          src = (if html \<noteq> []
                 then (case parseFirstImgSrc b html of Some a \<Rightarrow> a | None \<Rightarrow> src)
                 else src);
          src = (if src = [] \<and> uri \<noteq> [] then uri else src);
          src = (if src = [] \<and> text \<noteq> [] \<and>
                    (prefix ''http'' text \<or> prefix ''data:image'' text)
                 then text else src)
      in src)"

text \<open>
  \<open>handleDrop\<close>. Its range test \<open>index < 0 || index > 8\<close> is false for NaN, so that
  the handler goes on with the index NaN, where the test of \<open>handleClick\<close> is false for
  NaN as well and the click is dropped.
\<close>

definition handleDrop ::
    "browser \<Rightarrow> grid_app \<Rightarrow> drag_event \<Rightarrow> promise \<times> grid_app \<times> effect list" where
  "handleDrop b s e =
     (case dataTransfer e of
        None \<Rightarrow> (Resolved, s, [])
      | Some dt \<Rightarrow>
          let idx = index (getGridPosition b (clientX e) (clientY e))
          in if js_less idx (Num 0) \<or> js_less (Num 8) idx then (Resolved, s, [])
             else
               (case files dt of
                  f # _ \<Rightarrow>
                    if prefix ''image/'' (file_type f)
                    then loadImageFromFile b s f (toIndex idx)
                    else (Resolved, s, [])
                | [] \<Rightarrow>
                    let src = dropSource b dt
                    in if src \<noteq> [] then loadImageFromUrl b s src (toIndex idx)
                       else (Resolved, s, [])))"

text \<open>
  One event of the session, with the browser as it is when the event is handled.
  Each acquisition changes the fields in one piece, when its load completes, so a
  session with overlapping loads is the sequence of its completions.
\<close>

datatype event =
    Click pointer_event
  | FileChange "js_file list"
  | Drop drag_event
  | DownloadClick
  | Render

definition step :: "browser \<Rightarrow> event \<Rightarrow> grid_app \<Rightarrow> grid_app" where
  "step b ev s =
     (case ev of
        Click e \<Rightarrow> fst (handleClick b s e)
      | FileChange fs \<Rightarrow> fst (snd (handleFileSelect b s fs))
      | Drop e \<Rightarrow> fst (snd (handleDrop b s e))
      | DownloadClick \<Rightarrow> s
      | Render \<Rightarrow> s)"

fun run :: "(browser \<times> event) list \<Rightarrow> grid_app \<Rightarrow> grid_app" where
  "run [] s = s"
| "run ((b, ev) # evs) s = run evs (step b ev s)"

section \<open>Vocabulary of the properties\<close>

text \<open>
  The outcome of each way of acquiring an image, read off the browser: decoding a local
  file, and the three stages of a load by URL (direct with CORS, through the proxy with
  CORS, direct without CORS).
\<close>

definition fileLoad :: "browser \<Rightarrow> js_file \<Rightarrow> load_outcome" where
  "fileLoad b f = (case readAsDataURL b f of None \<Rightarrow> Hung | Some d \<Rightarrow> imageLoad b d False)"

definition stage1 :: "browser \<Rightarrow> string \<Rightarrow> load_outcome" where
  "stage1 b url = imageLoad b url True"

definition stage2 :: "browser \<Rightarrow> string \<Rightarrow> load_outcome" where
  "stage2 b url =
     (case encodeURIComponent b url of
        None \<Rightarrow> Failed
      | Some enc \<Rightarrow> imageLoad b (proxyPrefix @ enc) True)"

definition stage3 :: "browser \<Rightarrow> string \<Rightarrow> load_outcome" where
  "stage3 b url = imageLoad b url False"


text \<open>
  The pointer's coordinates in surface pixels, as \<open>getGridPosition\<close> computes them:
  the display coordinates scaled to the bitmap.
\<close>

definition surfaceX :: "browser \<Rightarrow> real \<Rightarrow> jsnum" where
  "surfaceX b cX =
     js_mul (js_sub (Num cX) (Num (rect_left (boundingClientRect b))))
       (js_div (Num (real (canvas_width b))) (Num (rect_width (boundingClientRect b))))"


text \<open>
  The indices that the handlers pass on to an acquisition: the number of one of the nine
  cells, or NaN.
\<close>

definition valid_target :: "js_index \<Rightarrow> bool" where
  "valid_target i = (case i of Cell k \<Rightarrow> k < 9 | NotANumber \<Rightarrow> True)"

text \<open>
  The invariant restricted to the cells: the array has nine slots, every tainted index
  that is a number is below 9 and names a filled slot, and a pending selection is the
  number of a cell.
\<close>

definition cells_inv :: "grid_app \<Rightarrow> bool" where
  "cells_inv s =
     (length (slots (images s)) = 9 \<and>
      fBall (taintedIndices s)
        (\<lambda>j. case j of Cell k \<Rightarrow> k < 9 \<and> slots (images s) ! k \<noteq> None | NotANumber \<Rightarrow> True) \<and>
      (case pendingCellIndex s of
         None \<Rightarrow> True
       | Some (Cell k) \<Rightarrow> k < 9
       | Some NotANumber \<Rightarrow> False))"



text \<open>
  The priority of the drop payloads as the specification words it: the source of an
  image element in the HTML payload, else the URI list, else the plain text if it looks
  like a URL.
\<close>

definition looksLikeUrl :: "string \<Rightarrow> bool" where
  "looksLikeUrl text = (prefix ''http'' text \<or> prefix ''data:image'' text)"

definition htmlImgSrc :: "browser \<Rightarrow> data_transfer \<Rightarrow> string option" where
  "htmlImgSrc b dt =
     (let html = getData dt ''text/html''
      in if html = [] then None
         else case parseFirstImgSrc b html of
                None \<Rightarrow> None
              | Some a \<Rightarrow> if a = [] then None else Some a)"

definition prioritySource :: "string option \<Rightarrow> string \<Rightarrow> string \<Rightarrow> string option" where
  "prioritySource imgSrc uriList plain =
     (case imgSrc of
        Some a \<Rightarrow> Some a
      | None \<Rightarrow>
          if uriList \<noteq> [] then Some uriList
          else if looksLikeUrl plain then Some plain
          else None)"

section \<open>An example session\<close>

text \<open>
  A browser showing the canvas at half its bitmap size, with four remote images: one
  served with CORS headers, one that only the proxy can fetch, one that loads only
  without CORS, and one that never loads.
\<close>

definition open_url :: string where "open_url = ''https://open.example/a.png''"
definition slow_url :: string where "slow_url = ''https://slow.example/b.png''"
definition closed_url :: string where "closed_url = ''https://closed.example/c.png''"
definition dead_url :: string where "dead_url = ''https://gone.example/d.png''"

definition demo_browser :: browser where
  "demo_browser =
     \<lparr>boundingClientRect = \<lparr>rect_left = 10, rect_top = 20, rect_width = 450, rect_height = 600\<rparr>,
      canvas_width = 900,
      canvas_height = 1200,
      imageLoad = (\<lambda>src cors.
         if src = ''data:image/png;base64,iVBOR'' then Loaded 100 200
         else if src = open_url then Loaded 640 480
         else if src = proxyPrefix @ ''https%3A%2F%2Fslow.example%2Fb.png'' \<and> cors
         then Loaded 800 600
         else if src = closed_url \<and> \<not> cors then Loaded 300 200
         else Failed),
      readAsDataURL = (\<lambda>f. Some (''data:'' @ file_type f @ '';base64,'' @ file_bytes f)),
      encodeURIComponent = (\<lambda>u.
         if u = slow_url then Some ''https%3A%2F%2Fslow.example%2Fb.png''
         else if u = closed_url then Some ''https%3A%2F%2Fclosed.example%2Fc.png''
         else if u = dead_url then Some ''https%3A%2F%2Fgone.example%2Fd.png''
         else None),
      parseFirstImgSrc = (\<lambda>h.
         if h = ''<img src=https://closed.example/c.png>'' then Some closed_url else None),
      toDataURL = (\<lambda>m. if m = ''image/png'' then Some ''data:image/png;base64,GRID'' else None)\<rparr>"

text \<open>The same browser with the canvas shown at its bitmap size, in the window's corner.\<close>

definition full_size_browser :: browser where
  "full_size_browser =
     demo_browser\<lparr>boundingClientRect :=
       \<lparr>rect_left = 0, rect_top = 0, rect_width = 900, rect_height = 1200\<rparr>\<rparr>"

text \<open>The same browser once its canvas refuses to be read back.\<close>

definition unclean_browser :: browser where
  "unclean_browser = demo_browser\<lparr>toDataURL := (\<lambda>m. None)\<rparr>"

definition png_file :: js_file where
  "png_file = \<lparr>file_type = ''image/png'', file_bytes = ''iVBOR''\<rparr>"

definition corrupt_file :: js_file where
  "corrupt_file = \<lparr>file_type = ''image/png'', file_bytes = ''zzzz''\<rparr>"

definition pdf_file :: js_file where
  "pdf_file = \<lparr>file_type = ''application/pdf'', file_bytes = ''JVBER''\<rparr>"

definition rich_payload :: "string \<Rightarrow> string" where
  "rich_payload fmt =
     (if fmt = ''text/html'' then ''<img src=https://closed.example/c.png>''
      else if fmt = ''text/uri-list'' then ''https://page.example/gallery''
      else if fmt = ''text/plain'' then ''https://page.example/gallery''
      else [])"

definition empty_payload :: "string \<Rightarrow> string" where
  "empty_payload fmt = []"

text \<open>A drop on the middle of the displayed canvas: cell 4.\<close>

definition centre_drop :: "data_transfer \<Rightarrow> drag_event" where
  "centre_drop dt = \<lparr>clientX = 235, clientY = 320, dataTransfer = Some dt\<rparr>"

definition tainted_centre :: grid_app where
  "tainted_centre =
     \<lparr>images =
        \<lparr>slots = (replicate 9 None)
           [4 := Some \<lparr>img_src = closed_url, img_crossOrigin = False,
                       img_width = 300, img_height = 200\<rparr>],
         nan_property = None\<rparr>,
      taintedIndices = {|Cell 4|},
      pendingCellIndex = None\<rparr>"

definition local_centre :: grid_app where
  "local_centre =
     \<lparr>images =
        \<lparr>slots = (replicate 9 None)
           [4 := Some \<lparr>img_src = ''data:image/png;base64,iVBOR'', img_crossOrigin = False,
                       img_width = 100, img_height = 200\<rparr>],
         nan_property = None\<rparr>,
      taintedIndices = {||},
      pendingCellIndex = None\<rparr>"


text \<open>A remote image that taints the middle cell, then a redraw.\<close>

definition tainting_session :: "(browser \<times> event) list" where
  "tainting_session =
     [(demo_browser, Drop (centre_drop \<lparr>files = [], getData = rich_payload\<rparr>)),
      (demo_browser, Render)]"

text \<open>The same, then a local file dropped on the same cell.\<close>

definition replacing_session :: "(browser \<times> event) list" where
  "replacing_session =
     [(demo_browser, Drop (centre_drop \<lparr>files = [], getData = rich_payload\<rparr>)),
      (demo_browser, Render),
      (demo_browser, Drop (centre_drop \<lparr>files = [png_file], getData = empty_payload\<rparr>))]"

text \<open>A drop of two files on the middle cell, the second one not an image.\<close>

definition mixed_drop :: drag_event where
  "mixed_drop = centre_drop \<lparr>files = [png_file, pdf_file], getData = empty_payload\<rparr>"





text \<open>A canvas shown 101 pixels wide in the window's corner.\<close>

definition narrow_browser :: browser where
  "narrow_browser =
     demo_browser\<lparr>boundingClientRect :=
       \<lparr>rect_left = 0, rect_top = 0, rect_width = 101, rect_height = 150\<rparr>\<rparr>"

text \<open>
  A drop event dispatched on the example browser with coordinates so large that the
  scaling overflows, to the left on one axis and downwards on the other.
\<close>

definition far_drop :: drag_event where
  "far_drop =
     \<lparr>clientX = - (2 ^ 1023), clientY = 2 ^ 1023,
      dataTransfer = Some \<lparr>files = [], getData = rich_payload\<rparr>\<rparr>"

definition far_session :: "(browser \<times> event) list" where
  "far_session = [(demo_browser, Drop far_drop), (demo_browser, Render)]"

section \<open>Rounding\<close>

lemma binade_bounds:
  assumes "0 < y"
  shows "2 powi (binade y) \<le> y \<and> y < 2 powi (binade y + 1)"
proof (cases "1 \<le> y")
  case True
  define n where "n = nat \<lfloor>y\<rfloor>"
  define k where "k = floorlog 2 n"
  have n1: "0 < n" using True by (simp add: n_def)
  have b: "2 ^ (k - 1) \<le> n \<and> n < 2 ^ k"
    unfolding k_def using floorlog_bounds[of n 2] n1 by simp
  have k1: "0 < k" using b n1 by (cases k) auto
  have nr: "real n = of_int \<lfloor>y\<rfloor>" using True by (simp add: n_def)
  have ny: "real n \<le> y" "y < real n + 1"
    unfolding nr by linarith+
  have e: "binade y = int k - 1" using True by (simp add: binade_def n_def k_def)
  have p1: "(2::real) powi (int k - 1) = 2 ^ (k - 1)"
    using k1 by (simp add: power_int_def nat_diff_distrib')
  have p2: "(2::real) powi (int k - 1 + 1) = 2 ^ k" by simp
  have lo: "(2::real) ^ (k - 1) \<le> real n"
    using b by (metis of_nat_le_iff of_nat_numeral of_nat_power)
  have hi: "real n + 1 \<le> 2 ^ k"
    using b by (metis Suc_leI of_nat_Suc of_nat_le_iff of_nat_numeral of_nat_power add.commute)
  have "2 powi (binade y) \<le> y" unfolding e p1 using lo ny by linarith
  moreover have "y < 2 powi (binade y + 1)" unfolding e p2 using hi ny by linarith
  ultimately show ?thesis by blast
next
  case False
  then have y1: "y < 1" by simp
  define c where "c = nat (\<lceil>1 / y\<rceil> - 1)"
  define k where "k = floorlog 2 c"
  have iy: "1 < 1 / y" using assms y1 by simp
  then have ce: "2 \<le> \<lceil>1 / y\<rceil>" by (simp add: le_ceiling_iff)
  then have c1: "0 < c" unfolding c_def by linarith
  have "0 \<le> \<lceil>1 / y\<rceil> - 1" using ce by linarith
  then have "real c = of_int (\<lceil>1 / y\<rceil> - 1)" unfolding c_def by (rule of_nat_nat)
  then have cr: "real c = of_int \<lceil>1 / y\<rceil> - 1" by simp
  have b: "2 ^ (k - 1) \<le> c \<and> c < 2 ^ k"
    unfolding k_def using floorlog_bounds[of c 2] c1 by simp
  have k1: "0 < k" using b c1 by (cases k) auto
  have e: "binade y = - int k" using False by (simp add: binade_def c_def k_def)
  have lo: "(2::real) ^ (k - 1) \<le> real c"
    using b by (metis of_nat_le_iff of_nat_numeral of_nat_power)
  have hi: "real c + 1 \<le> 2 ^ k"
    using b by (metis Suc_leI of_nat_Suc of_nat_le_iff of_nat_numeral of_nat_power add.commute)
  have c_lt: "real c < 1 / y" unfolding cr by linarith
  have le_c: "1 / y \<le> real c + 1" unfolding cr by linarith
  have a: "1 / y \<le> 2 ^ k" using le_c hi by linarith
  have bb: "(2::real) ^ (k - 1) < 1 / y" using lo c_lt by linarith
  have p1: "(2::real) powi (- int k) = 1 / 2 ^ k"
    by (simp add: power_int_minus_divide)
  have p2: "(2::real) powi (- int k + 1) = 1 / 2 ^ (k - 1)"
  proof -
    have "- int k + 1 = - int (k - 1)" using k1 by simp
    then show ?thesis by (simp only: power_int_minus_divide power_int_of_nat)
  qed
  have g1: "1 / 2 ^ k \<le> y"
    using a assms by (simp add: field_simps)
  have g2: "y < 1 / 2 ^ (k - 1)"
    using bb assms by (simp add: field_simps)
  have "2 powi (binade y) \<le> y" unfolding e p1 using g1 .
  moreover have "y < 2 powi (binade y + 1)" unfolding e p2 using g2 .
  ultimately show ?thesis by blast
qed

lemma binade_unique:
  assumes "0 < y" "2 powi e \<le> y" "y < 2 powi (e + 1)"
  shows "binade y = e"
proof (rule ccontr)
  assume ne: "binade y \<noteq> e"
  note b = binade_bounds[OF assms(1)]
  show False
  proof (cases "binade y < e")
    case True
    then have "binade y + 1 \<le> e" by simp
    then have "(2::real) powi (binade y + 1) \<le> 2 powi e"
      by (intro power_int_increasing) simp_all
    then show False using b assms by linarith
  next
    case False
    with ne have "e + 1 \<le> binade y" by simp
    then have "(2::real) powi (e + 1) \<le> 2 powi (binade y)"
      by (intro power_int_increasing) simp_all
    then show False using b assms by linarith
  qed
qed

lemma rne_of_int [simp]: "rne (of_int k) = k"
  by (simp add: rne_def)

lemma rne_ge: "of_int j \<le> q \<Longrightarrow> j \<le> rne q"
proof -
  assume "of_int j \<le> q"
  then have "j \<le> \<lfloor>q\<rfloor>" by (simp add: le_floor_iff)
  then show ?thesis by (auto simp: rne_def Let_def)
qed

lemma rne_le: "q \<le> of_int j \<Longrightarrow> rne q \<le> j"
proof -
  assume a: "q \<le> of_int j"
  have f: "\<lfloor>q\<rfloor> \<le> j" using floor_mono[OF a] by simp
  show ?thesis
  proof (cases "q = of_int \<lfloor>q\<rfloor>")
    case True
    then have "q - of_int \<lfloor>q\<rfloor> = 0" by simp
    then show ?thesis using f by (simp add: rne_def Let_def)
  next
    case False
    then have "of_int \<lfloor>q\<rfloor> < q" using of_int_floor_le[of q] by linarith
    then have "of_int \<lfloor>q\<rfloor> < (of_int j :: real)" using a by linarith
    then have "\<lfloor>q\<rfloor> + 1 \<le> j" by simp
    then show ?thesis using f by (auto simp: rne_def Let_def)
  qed
qed


lemma pow2_split: "(2::real) powi a = 2 powi (a - b) * 2 powi b"
  using power_int_add[of "2::real" "a - b" b] by simp

lemma pow2_nat: "0 \<le> a \<Longrightarrow> (2::real) powi a = of_int (2 ^ nat a)"
  by (simp add: power_int_def)

lemma round64_round:
  assumes "x \<noteq> 0" and e: "e = max (binade \<bar>x\<bar>) (- 1022)"
    and lo: "of_int a \<le> x / 2 powi (e - 52)" and hi: "x / 2 powi (e - 52) \<le> of_int b"
    and na: "- overflow_bound < of_int a * 2 powi (e - 52)"
    and nb: "of_int b * 2 powi (e - 52) < overflow_bound"
  shows "\<exists>r. round64 x = Num r \<and> r = of_int (rne (x / 2 powi (e - 52))) * 2 powi (e - 52) \<and>
           of_int a * 2 powi (e - 52) \<le> r \<and> r \<le> of_int b * 2 powi (e - 52)"
proof -
  define u :: real where "u = 2 powi (e - 52)"
  define n where "n = rne (x / u)"
  have up: "0 < u" by (simp add: u_def)
  have n1: "a \<le> n" unfolding n_def using lo rne_ge by (simp add: u_def)
  have n2: "n \<le> b" unfolding n_def using hi rne_le by (simp add: u_def)
  have r1: "of_int a * u \<le> of_int n * u" using n1 up by simp
  have r2: "of_int n * u \<le> of_int b * u" using n2 up by simp
  have "\<bar>of_int n * u\<bar> < overflow_bound"
    using r1 r2 na nb unfolding u_def abs_less_iff by linarith
  then have "round64 x = Num (of_int n * u)"
    using assms(1) e by (simp add: round64_def Let_def n_def u_def)
  then show ?thesis using r1 r2 by (simp add: n_def u_def)
qed

lemma round64_in_binade:
  assumes "x \<noteq> 0" "2 powi e \<le> \<bar>x\<bar>" "\<bar>x\<bar> < 2 powi (e + 1)" "- 1022 \<le> e" "e \<le> 1022"
  shows "round64 x = Num (of_int (rne (x / 2 powi (e - 52))) * 2 powi (e - 52))"
proof -
  have b: "binade \<bar>x\<bar> = e" using assms by (intro binade_unique) simp_all
  then have e: "e = max (binade \<bar>x\<bar>) (- 1022)" using assms(4) by simp
  define u :: real where "u = 2 powi (e - 52)"
  have up: "0 < u" by (simp add: u_def)
  have s: "(2::real) powi (e + 1) = 2 ^ 53 * u"
    unfolding u_def using pow2_split[of "e + 1" "e - 52"] by simp
  have qq: "\<bar>x\<bar> / u < 2 ^ 53" using assms(3) up unfolding s by (simp add: field_simps)
  have q: "\<bar>x / u\<bar> < 2 ^ 53" using qq up by simp
  have "- (2 ^ 53) \<le> x / u" "x / u \<le> 2 ^ 53" using q by linarith+
  then have lo: "of_int (- (2 ^ 53)) \<le> x / u" and hi: "x / u \<le> of_int (2 ^ 53)"
    by simp_all
  have "(2::real) powi (e + 1) \<le> 2 powi 1023"
    using assms(5) by (intro power_int_increasing) simp_all
  also have "\<dots> < 2 powi 1024" by (intro power_int_strict_increasing) simp_all
  also have "\<dots> = overflow_bound" by (simp only: overflow_bound_def power_int_numeral)
  finally have top: "2 ^ 53 * u < overflow_bound" unfolding s .
  have na: "- overflow_bound < of_int (- (2 ^ 53)) * u" using top by simp
  have nb: "of_int (2 ^ 53) * u < overflow_bound" using top by simp
  from round64_round[OF assms(1) e lo[unfolded u_def] hi[unfolded u_def] na[unfolded u_def] nb[unfolded u_def]]
  show ?thesis by auto
qed



lemma round64_zero [simp]: "round64 0 = Num 0"
  by (simp add: round64_def)




text \<open>Evaluating \<open>round64\<close> at a number whose binade is known.\<close>

lemma round64_eval:
  assumes "x \<noteq> 0" "2 powi e \<le> \<bar>x\<bar>" "\<bar>x\<bar> < 2 powi (e + 1)" "- 1022 \<le> e" "e \<le> 1022"
    and "rne (x / 2 powi (e - 52)) = n" and "r = of_int n * 2 powi (e - 52)"
  shows "round64 x = Num r"
  using round64_in_binade[OF assms(1-5)] assms(6,7) by simp

text \<open>The integers below \<open>2^53\<close> are doubles.\<close>

lemma round64_int:
  assumes "\<bar>k\<bar> < 2 ^ 53"
  shows "round64 (of_int k) = Num (of_int k)"
proof (cases "k = 0")
  case True
  then show ?thesis by simp
next
  case False
  define x :: real where "x = of_int k"
  define e where "e = binade \<bar>x\<bar>"
  have x0: "x \<noteq> 0" using False by (simp add: x_def)
  have x1: "1 \<le> \<bar>x\<bar>"
  proof -
    have "1 \<le> \<bar>k\<bar>" using False by simp
    then have "(of_int 1 :: real) \<le> of_int \<bar>k\<bar>" by (simp only: of_int_le_iff)
    then show ?thesis by (simp add: x_def)
  qed
  have x2: "\<bar>x\<bar> < 2 ^ 53"
  proof -
    have "(of_int \<bar>k\<bar> :: real) < of_int (2 ^ 53)" using assms by (simp only: of_int_less_iff)
    then show ?thesis by (simp add: x_def)
  qed
  have b: "2 powi e \<le> \<bar>x\<bar>" "\<bar>x\<bar> < 2 powi (e + 1)"
    using binade_bounds[of "\<bar>x\<bar>"] x0 by (simp_all add: e_def)
  have e0: "0 \<le> e"
  proof (rule ccontr)
    assume "\<not> 0 \<le> e"
    then have "e + 1 \<le> 0" by simp
    then have "(2::real) powi (e + 1) \<le> 2 powi 0" by (intro power_int_increasing) simp_all
    then show False using b x1 by simp
  qed
  have e52: "e \<le> 52"
  proof (rule ccontr)
    assume "\<not> e \<le> 52"
    then have "53 \<le> e" by simp
    then have "(2::real) powi 53 \<le> 2 powi e" by (intro power_int_increasing) simp_all
    then show False using b x2 by simp
  qed
  define u :: real where "u = 2 powi (e - 52)"
  have up: "0 < u" by (simp add: u_def)
  have iu: "1 / u = of_int (2 ^ nat (52 - e))"
  proof -
    have "(2::real) powi (52 - e) = of_int (2 ^ nat (52 - e))" using e52 by (intro pow2_nat) simp
    moreover have "(2::real) powi (52 - e) * u = 1"
      unfolding u_def using pow2_split[of "0" "e - 52"] by simp
    ultimately show ?thesis using up by (simp add: field_simps)
  qed
  have "x / u = x * (1 / u)" by simp
  also have "\<dots> = of_int (k * 2 ^ nat (52 - e))" unfolding iu by (simp add: x_def)
  finally have q: "x / u = of_int (k * 2 ^ nat (52 - e))" .
  have "round64 x = Num (of_int (rne (x / u)) * u)"
    unfolding u_def using x0 b e0 e52 by (intro round64_in_binade) simp_all
  also have "of_int (rne (x / u)) * u = x"
    unfolding q rne_of_int using q up by (simp add: field_simps)
  finally show ?thesis by (simp add: x_def)
qed

lemma round64_numeral [simp]:
  "numeral n < (2 ^ 53 :: int) \<Longrightarrow> round64 (numeral n) = Num (numeral n)"
  using round64_int[of "numeral n"] by simp

lemma round64_neg_numeral [simp]:
  "numeral n < (2 ^ 53 :: int) \<Longrightarrow> round64 (- numeral n) = Num (- numeral n)"
  using round64_int[of "- numeral n"] by simp

lemma round64_one [simp]: "round64 1 = Num 1"
  using round64_int[of 1] by simp

text \<open>The quotients that the examples meet.\<close>

lemma round64_quarter: "round64 (1 / 4) = Num (1 / 4)"
  by (rule round64_eval[where e = "- 2" and n = 4503599627370496])
    (simp_all add: rne_def power_int_minus_divide)

lemma round64_five_quarters: "round64 (5 / 4) = Num (5 / 4)"
  by (rule round64_eval[where e = 0 and n = 5629499534213120])
    (simp_all add: rne_def power_int_minus_divide)

lemma round64_three_halves: "round64 (3 / 2) = Num (3 / 2)"
  by (rule round64_eval[where e = 0 and n = 6755399441055744])
    (simp_all add: rne_def power_int_minus_divide)

lemma round64_19_6: "round64 (19 / 6) = Num (7130699410003285 / 2251799813685248)"
  by (rule round64_eval[where e = 1 and n = 7130699410003285])
    (simp_all add: rne_def power_int_minus_divide)

lemma round64_m1_30: "round64 (- (1 / 30)) = Num (- (4803839602528529 / 144115188075855872))"
  by (rule round64_eval[where e = "- 5" and n = "- 4803839602528529"])
    (simp_all add: rne_def power_int_minus_divide)




lemma round64_edge_pointer:
  "round64 (7107243161944063 / 70368744177664) = Num (7107243161944063 / 70368744177664)"
  by (rule round64_eval[where e = 6 and n = 7107243161944063])
    (simp_all add: rne_def power_int_minus_divide)

lemma round64_900_101: "round64 (900 / 101) = Num (2508192861778123 / 281474976710656)"
  by (rule round64_eval[where e = 3 and n = 5016385723556246])
    (simp_all add: rne_def power_int_minus_divide)

text \<open>The product of the pointer \<open>101 - 2^-46\<close> and the rounded scale 900 / 101.\<close>

lemma round64_edge_scaled:
  "round64 (17826336565709475068835643133749 / 19807040628566084398385987584) = Num 900"
  by (rule round64_eval[where e = 9 and n = 7916483719987200])
    (simp_all add: rne_def power_int_minus_divide)



text \<open>An integer rounds to an integer.\<close>

lemma round64_integral:
  assumes "round64 (of_int k) = Num a"
  shows "\<exists>j::int. a = of_int j"
proof (cases "k = 0")
  case True
  then have "a = of_int 0" using assms by simp
  then show ?thesis by blast
next
  case False
  define x :: real where "x = of_int k"
  define e where "e = max (binade \<bar>x\<bar>) (- 1022)"
  define u :: real where "u = 2 powi (e - 52)"
  have up: "0 < u" by (simp add: u_def)
  have x0: "x \<noteq> 0" using False by (simp add: x_def)
  have a: "a = of_int (rne (x / u)) * u"
    using assms x0 unfolding x_def[symmetric]
    by (simp add: round64_def Let_def e_def u_def split: if_splits)
  show ?thesis
  proof (cases "52 \<le> e")
    case True
    then have "u = of_int (2 ^ nat (e - 52))" unfolding u_def by (intro pow2_nat) simp
    then have "a = of_int (rne (x / u) * 2 ^ nat (e - 52))" using a by simp
    then show ?thesis by blast
  next
    case False
    have iu: "1 / u = of_int (2 ^ nat (52 - e))"
    proof -
      have "(2::real) powi (52 - e) = of_int (2 ^ nat (52 - e))"
        using False by (intro pow2_nat) simp
      moreover have "(2::real) powi (52 - e) * u = 1"
        unfolding u_def using pow2_split[of "0" "e - 52"] by simp
      ultimately show ?thesis using up by (simp add: field_simps)
    qed
    have "x / u = x * (1 / u)" by simp
    also have "\<dots> = of_int (k * 2 ^ nat (52 - e))" unfolding iu by (simp add: x_def)
    finally have q: "x / u = of_int (k * 2 ^ nat (52 - e))" .
    have "of_int (rne (x / u)) * u = x"
      unfolding q rne_of_int using q up by (simp add: field_simps)
    then have "a = of_int k" using a by (simp add: x_def)
    then show ?thesis by blast
  qed
qed

text \<open>Overflow, and the largest binade.\<close>

lemma round64_overflow:
  assumes "overflow_bound \<le> \<bar>x\<bar>"
  shows "round64 x = (if 0 < x then PosInf else NegInf)"
proof -
  define e where "e = max (binade \<bar>x\<bar>) (- 1022)"
  define u :: real where "u = 2 powi (e - 52)"
  have up: "0 < u" by (simp add: u_def)
  have ob: "overflow_bound = 2 powi 1024" by (simp only: overflow_bound_def power_int_numeral)
  have x0: "x \<noteq> 0" using assms by (auto simp: overflow_bound_def)
  have b: "2 powi (binade \<bar>x\<bar>) \<le> \<bar>x\<bar>" "\<bar>x\<bar> < 2 powi (binade \<bar>x\<bar> + 1)"
    using binade_bounds[of "\<bar>x\<bar>"] x0 by simp_all
  have be: "1024 \<le> binade \<bar>x\<bar>"
  proof (rule ccontr)
    assume "\<not> 1024 \<le> binade \<bar>x\<bar>"
    then have "binade \<bar>x\<bar> + 1 \<le> 1024" by simp
    then have "(2::real) powi (binade \<bar>x\<bar> + 1) \<le> 2 powi 1024"
      by (intro power_int_increasing) simp_all
    then show False using b assms ob by linarith
  qed
  then have e: "e = binade \<bar>x\<bar>" "1024 \<le> e" by (simp_all add: e_def)
  have s: "(2::real) powi e = 2 ^ 52 * u"
    unfolding u_def using pow2_split[of e "e - 52"] by simp
  have big: "overflow_bound \<le> 2 ^ 52 * u"
    unfolding ob s[symmetric] using e(2) by (intro power_int_increasing) simp_all
  have q: "2 ^ 52 \<le> \<bar>x\<bar> / u" using b(1) up unfolding e(1)[symmetric] s by (simp add: field_simps)
  have r: "overflow_bound \<le> \<bar>of_int (rne (x / u)) * u\<bar>"
  proof (cases "0 < x")
    case True
    then have "of_int (2 ^ 52) \<le> x / u" using q by simp
    then have "2 ^ 52 \<le> rne (x / u)" by (rule rne_ge)
    then have "(of_int (2 ^ 52) :: real) \<le> of_int (rne (x / u))" by (simp only: of_int_le_iff)
    then have "of_int (2 ^ 52) * u \<le> of_int (rne (x / u)) * u"
      using up by (intro mult_right_mono) simp_all
    then show ?thesis using big by simp
  next
    case False
    then have "\<bar>x\<bar> = - x" using x0 by simp
    then have "x / u \<le> of_int (- (2 ^ 52))" using q by simp
    then have "rne (x / u) \<le> - (2 ^ 52)" by (rule rne_le)
    then have "(of_int (rne (x / u)) :: real) \<le> of_int (- (2 ^ 52))" by (simp only: of_int_le_iff)
    then have "of_int (rne (x / u)) * u \<le> of_int (- (2 ^ 52)) * u"
      using up by (intro mult_right_mono) simp_all
    then show ?thesis using big by simp
  qed
  show ?thesis
    using x0 r by (simp add: round64_def Let_def e_def[symmetric] u_def[symmetric])
qed

text \<open>The offsets of the far pointer from the corner of the example box.\<close>

lemma round64_top_pos: "round64 (2 ^ 1023 - 20) = Num (2 ^ 1023)"
  by (rule round64_eval[where e = 1022 and n = 9007199254740992])
    (simp_all add: rne_def power_int_minus_divide)

lemma round64_eval_top:
  assumes "x \<noteq> 0" "2 powi 1023 \<le> \<bar>x\<bar>" "\<bar>x\<bar> < 2 powi 1024"
    and "rne (x / 2 powi 971) = n" and "r = of_int n * 2 powi 971" and "\<bar>r\<bar> < overflow_bound"
  shows "round64 x = Num r"
proof -
  have "binade \<bar>x\<bar> = 1023" using assms(1,2,3) by (intro binade_unique) simp_all
  then show ?thesis using assms by (simp add: round64_def Let_def)
qed

lemma round64_top_neg: "round64 (- (2 ^ 1023) - 10) = Num (- (2 ^ 1023))"
  by (rule round64_eval_top[where n = "- 4503599627370496"])
    (simp_all add: rne_def overflow_bound_def)

section \<open>Grid addressing\<close>

lemmas grid_defs = getGridPosition_def Let_def cellWidth_def cellHeight_def

text \<open>The middle of the canvas in the example browser.\<close>

lemma centre_position:
  "getGridPosition demo_browser 235 320 = \<lparr>col = Num 1, row = Num 1, index = Num 4\<rparr>"
  by (simp add: grid_defs demo_browser_def round64_three_halves)

text \<open>
  C4. The specification has a pointer outside the grid get an index outside 0..8, so that
  the callers' range test discards it. The code does not do that: on a canvas shown at
  its bitmap size, a pointer 50 pixels to the right of the grid in the first row gets
  column 3 and index 3, a pointer 10 pixels to the left of the grid in the second row
  gets column -1 and index 2, and \<open>handleClick\<close> accepts the first as cell 3.
\<close>

theorem locate_outside_grid_accepted:
  "surfaceX full_size_browser 950 = Num 950 \<and>
   js_le (Num gridWidth) (surfaceX full_size_browser 950) \<and>
   getGridPosition full_size_browser 950 100 = \<lparr>col = Num 3, row = Num 0, index = Num 3\<rparr> \<and>
   surfaceX full_size_browser (- 10) = Num (- 10) \<and>
   js_less (surfaceX full_size_browser (- 10)) (Num 0) \<and>
   getGridPosition full_size_browser (- 10) 500
     = \<lparr>col = Num (- 1), row = Num 1, index = Num 2\<rparr> \<and>
   handleClick full_size_browser init_app \<lparr>clientX = 950, clientY = 100\<rparr>
     = (init_app\<lparr>pendingCellIndex := Some (Cell 3)\<rparr>, [FilePickerOpened])"
  by (simp add: grid_defs full_size_browser_def demo_browser_def gridWidth_def
      handleClick_def surfaceX_def toIndex_def
      round64_quarter round64_five_quarters round64_19_6 round64_m1_30)





text \<open>
  What passes the range tests of the two handlers: a number from 0 to 8 passes both,
  NaN passes the test of \<open>handleDrop\<close> only, and an infinity passes neither.
\<close>

lemma range_tests:
  "(js_le (Num 0) v \<and> js_le v (Num 8)) = (\<exists>a. v = Num a \<and> 0 \<le> a \<and> a \<le> 8)"
  "(\<not> (js_less v (Num 0) \<or> js_less (Num 8) v))
     = (v = NaN \<or> (\<exists>a. v = Num a \<and> 0 \<le> a \<and> a \<le> 8))"
  by (cases v; auto)+

text \<open>The index, when it is finite, is an integer.\<close>

lemma js_floor_integral: "js_floor v = Num a \<Longrightarrow> \<exists>k::int. a = of_int k"
  by (cases v) auto

lemma js_mul_Num:
  "js_mul p q = Num a \<Longrightarrow> \<exists>x y. p = Num x \<and> q = Num y \<and> round64 (x * y) = Num a"
  by (cases p; cases q) (auto split: if_splits)

lemma js_add_Num:
  "js_add p q = Num a \<Longrightarrow> \<exists>x y. p = Num x \<and> q = Num y \<and> round64 (x + y) = Num a"
  by (cases p; cases q) auto

lemma index_integral:
  assumes "index (getGridPosition b cX cY) = Num a"
  shows "of_int \<lfloor>a\<rfloor> = a"
proof -
  define c where "c = col (getGridPosition b cX cY)"
  define r where "r = row (getGridPosition b cX cY)"
  have i: "js_add (js_mul r (Num 3)) c = Num a"
    using assms by (simp add: getGridPosition_def Let_def c_def r_def)
  from js_add_Num[OF i] obtain m cv where
    m: "js_mul r (Num 3) = Num m" and cv: "c = Num cv" and a: "round64 (m + cv) = Num a"
    by blast
  from js_mul_Num[OF m] obtain rv where rv: "r = Num rv" and rm: "round64 (rv * 3) = Num m"
    by auto
  obtain rk :: int where rk: "rv = of_int rk"
    using rv js_floor_integral[of _ rv] by (auto simp: r_def getGridPosition_def Let_def)
  obtain ck :: int where ck: "cv = of_int ck"
    using cv js_floor_integral[of _ cv] by (auto simp: c_def getGridPosition_def Let_def)
  have "round64 (of_int (rk * 3)) = Num m" using rm rk by simp
  from round64_integral[OF this] obtain j :: int where j: "m = of_int j" by blast
  have "round64 (of_int (j + ck)) = Num a" using a j ck by simp
  from round64_integral[OF this] obtain k :: int where "a = of_int k" by blast
  then show ?thesis by simp
qed



text \<open>
  At the edge the scaling can round a pointer out of the bitmap. In a box 101 pixels
  wide, the pointer \<open>2^-46\<close> pixels inside the right edge has the surface coordinate
  900 after rounding, the width of the bitmap, and gets column 3.
\<close>

lemma edge_rounds_out:
  "7107243161944063 / 70368744177664
     < rect_left (boundingClientRect narrow_browser)
       + rect_width (boundingClientRect narrow_browser) \<and>
   surfaceX narrow_browser (7107243161944063 / 70368744177664) = Num 900 \<and>
   getGridPosition narrow_browser (7107243161944063 / 70368744177664) 0
     = \<lparr>col = Num 3, row = Num 0, index = Num 3\<rparr>"
  by (simp add: surfaceX_def grid_defs narrow_browser_def demo_browser_def
      round64_edge_pointer round64_900_101 round64_edge_scaled)

text \<open>
  The far pointer in the example browser: the scaling overflows on both axes, with
  opposite signs, and the index is NaN.
\<close>

lemma overflow_position:
  "getGridPosition demo_browser (- (2 ^ 1023)) (2 ^ 1023)
     = \<lparr>col = NegInf, row = PosInf, index = NaN\<rparr>"
proof -
  have "round64 (- (2 ^ 1023) * 2) = NegInf"
    using round64_overflow[of "- (2 ^ 1023) * 2"] by (simp add: overflow_bound_def)
  then have x: "js_mul (js_sub (Num (- (2 ^ 1023))) (Num 10)) (Num 2) = NegInf"
    by (simp only: js_sub.simps js_mul.simps round64_top_neg)
  have "round64 (2 ^ 1023 * 2) = PosInf"
    using round64_overflow[of "2 ^ 1023 * 2"] by (simp add: overflow_bound_def)
  then have y: "js_mul (js_sub (Num (2 ^ 1023)) (Num 20)) (Num 2) = PosInf"
    by (simp only: js_sub.simps js_mul.simps round64_top_pos)
  show ?thesis
    using x y by (simp add: grid_defs demo_browser_def)
qed

section \<open>Export\<close>

lemmas demo_defs =
  demo_browser_def open_url_def slow_url_def closed_url_def dead_url_def proxyPrefix_def

lemmas load_defs =
  loadImageFromUrl_def loadStage2_def loadStage3_def loadImage_def loadImageFromFile_def
  setImage_def

text \<open>A drop on the middle of the canvas in the example browser.\<close>

lemma centre_drop_files:
  "handleDrop demo_browser s (centre_drop \<lparr>files = f # fs, getData = g\<rparr>) =
     (if prefix ''image/'' (file_type f) then loadImageFromFile demo_browser s f (Cell 4)
      else (Resolved, s, []))"
  by (simp add: handleDrop_def centre_drop_def centre_position toIndex_def)

lemma centre_drop_url:
  "handleDrop demo_browser s (centre_drop \<lparr>files = [], getData = g\<rparr>) =
     (if dropSource demo_browser \<lparr>files = [], getData = g\<rparr> \<noteq> []
      then loadImageFromUrl demo_browser s
             (dropSource demo_browser \<lparr>files = [], getData = g\<rparr>) (Cell 4)
      else (Resolved, s, []))"
  by (simp add: handleDrop_def centre_drop_def centre_position toIndex_def Let_def)

text \<open>
  C1. Whenever the set of tainted indices is not empty, \<open>downloadImage\<close> shows the
  blocking notice and does nothing else: the surface is not serialised and no download
  is triggered, whatever \<open>toDataURL\<close> would have returned.
\<close>

theorem export_blocked_when_tainted:
  "taintedIndices s \<noteq> {||} \<Longrightarrow>
     downloadImage b s = [Alert taintedNotice] \<and>
     (\<forall>name href. Download name href \<notin> set (downloadImage b s))"
  by (simp add: downloadImage_def)

text \<open>The example state with cell 4 tainted: the export is blocked.\<close>

theorem export_blocked_when_tainted_witness:
  "taintedIndices tainted_centre \<noteq> {||} \<and>
   downloadImage demo_browser tainted_centre = [Alert taintedNotice]"
  using export_blocked_when_tainted[of tainted_centre demo_browser]
  by (simp add: tainted_centre_def)

text \<open>
  C9, as amended. With no tainted index and at least one slot filled, \<open>downloadImage\<close>
  triggers exactly one download, of the PNG serialisation of the surface under the name
  \<open>3x3-grid.png\<close>, provided that \<open>toDataURL\<close> returns; when \<open>toDataURL\<close> throws, the
  handler's \<open>catch\<close> shows the generic notice and no download is triggered. (The code
  does not test whether a slot is filled.)
\<close>

theorem export_when_clean:
  "(taintedIndices s = {||} \<and> (\<exists>i. array_get (images s) (Cell i) \<noteq> None) \<and>
    toDataURL b ''image/png'' = Some href
      \<longrightarrow> downloadImage b s = [Download ''3x3-grid.png'' href]) \<and>
   (taintedIndices s = {||} \<and> toDataURL b ''image/png'' = None
      \<longrightarrow> downloadImage b s = [Alert exportBlockedNotice, ConsoleError ''toDataURL''])"
  by (simp add: downloadImage_def fcard_fempty)

text \<open>Both cases of the amended property, on the example state with a local image in cell 4.\<close>

theorem export_when_clean_witness:
  "taintedIndices local_centre = {||} \<and> (\<exists>i. array_get (images local_centre) (Cell i) \<noteq> None) \<and>
   toDataURL demo_browser ''image/png'' = Some ''data:image/png;base64,GRID'' \<and>
   downloadImage demo_browser local_centre
     = [Download ''3x3-grid.png'' ''data:image/png;base64,GRID''] \<and>
   toDataURL unclean_browser ''image/png'' = None \<and>
   downloadImage unclean_browser local_centre
     = [Alert exportBlockedNotice, ConsoleError ''toDataURL'']"
proof -
  have t: "taintedIndices local_centre = {||}" by (simp add: local_centre_def)
  have p: "\<exists>i. array_get (images local_centre) (Cell i) \<noteq> None"
    by (rule exI[of _ 4]) (simp add: local_centre_def)
  have u: "toDataURL demo_browser ''image/png'' = Some ''data:image/png;base64,GRID''"
    by (simp add: demo_browser_def)
  have n: "toDataURL unclean_browser ''image/png'' = None"
    by (simp add: unclean_browser_def)
  show ?thesis
    using t p u n
      export_when_clean[of local_centre demo_browser "''data:image/png;base64,GRID''"]
      export_when_clean[of local_centre unclean_browser]
    by simp
qed

text \<open>
  C9 as stated fails. The state reached by loading a remote image without CORS into
  cell 4 and then a local file into the same cell has no tainted index and a filled
  slot; in a browser whose canvas still refuses to be read back (it has been drawn on
  with the remote image), the export shows the generic notice and triggers no download.
\<close>

theorem export_clean_counterexample:
  "run replacing_session init_app = local_centre \<and>
   taintedIndices local_centre = {||} \<and> array_get (images local_centre) (Cell 4) \<noteq> None \<and>
   downloadImage unclean_browser local_centre
     = [Alert exportBlockedNotice, ConsoleError ''toDataURL'']"
proof -
  have r: "run replacing_session init_app = local_centre"
    by (simp add: replacing_session_def step_def centre_drop_url centre_drop_files png_file_def)
      (simp add: dropSource_def rich_payload_def load_defs demo_defs init_app_def
        local_centre_def Let_def)
  have d: "downloadImage unclean_browser local_centre
             = [Alert exportBlockedNotice, ConsoleError ''toDataURL'']"
    by (simp add: local_centre_def unclean_browser_def downloadImage_def fcard_fempty)
  show ?thesis using r d by (simp add: local_centre_def)
qed

section \<open>Taint follows the path of the acquisition\<close>

lemma array_get_set:
  "array_get (array_set a i v) j = (if j = i then Some v else array_get a j)"
  by (cases i; cases j) (auto simp: nth_append nth_Cons')

text \<open>
  C2. After a successful acquisition into cell \<open>i\<close> the slot is filled and the taint
  mark follows the path: a decoded local file, a load that succeeds at stage 1, and a
  load that succeeds at stage 2 remove \<open>i\<close> from the tainted indices, whatever they were
  before; a load that succeeds only at stage 3 adds \<open>i\<close>. No other index changes.
\<close>

theorem taint_follows_acquisition_path:
  "(fileLoad b f = Loaded iw ih \<longrightarrow>
      (\<exists>s' fx. loadImageFromFile b s f i = (Resolved, s', fx) \<and>
         array_get (images s') i \<noteq> None \<and>
         taintedIndices s' = taintedIndices s |-| {|i|} \<and> i |\<notin>| taintedIndices s')) \<and>
   (stage1 b url = Loaded iw ih \<longrightarrow>
      (\<exists>s' fx. loadImageFromUrl b s url i = (Resolved, s', fx) \<and>
         array_get (images s') i \<noteq> None \<and>
         taintedIndices s' = taintedIndices s |-| {|i|} \<and> i |\<notin>| taintedIndices s')) \<and>
   (stage1 b url = Failed \<and> stage2 b url = Loaded iw ih \<longrightarrow>
      (\<exists>s' fx. loadImageFromUrl b s url i = (Resolved, s', fx) \<and>
         array_get (images s') i \<noteq> None \<and>
         taintedIndices s' = taintedIndices s |-| {|i|} \<and> i |\<notin>| taintedIndices s')) \<and>
   (stage1 b url = Failed \<and> stage2 b url = Failed \<and> stage3 b url = Loaded iw ih \<longrightarrow>
      (\<exists>s' fx. loadImageFromUrl b s url i = (Resolved, s', fx) \<and>
         array_get (images s') i \<noteq> None \<and>
         taintedIndices s' = finsert i (taintedIndices s) \<and> i |\<in>| taintedIndices s'))"
  by (auto simp: fileLoad_def stage1_def stage2_def stage3_def loadImageFromFile_def
      loadImageFromUrl_def loadStage2_def loadStage3_def loadImage_def setImage_def
      array_get_set Let_def
      split: option.splits load_outcome.splits)

text \<open>
  The four paths in the example browser: the first three clear the mark of the tainted
  cell 4, the fourth sets it on the empty grid.
\<close>

theorem taint_follows_acquisition_path_witness:
  "fileLoad demo_browser png_file = Loaded 100 200 \<and>
   Cell 4 |\<notin>| taintedIndices (fst (snd (loadImageFromFile demo_browser tainted_centre png_file (Cell 4)))) \<and>
   stage1 demo_browser open_url = Loaded 640 480 \<and>
   Cell 4 |\<notin>| taintedIndices (fst (snd (loadImageFromUrl demo_browser tainted_centre open_url (Cell 4)))) \<and>
   stage1 demo_browser slow_url = Failed \<and> stage2 demo_browser slow_url = Loaded 800 600 \<and>
   Cell 4 |\<notin>| taintedIndices (fst (snd (loadImageFromUrl demo_browser tainted_centre slow_url (Cell 4)))) \<and>
   stage1 demo_browser closed_url = Failed \<and> stage2 demo_browser closed_url = Failed \<and>
   stage3 demo_browser closed_url = Loaded 300 200 \<and>
   Cell 4 |\<in>| taintedIndices (fst (snd (loadImageFromUrl demo_browser init_app closed_url (Cell 4))))"
proof -
  have f: "fileLoad demo_browser png_file = Loaded 100 200"
    by (simp add: fileLoad_def png_file_def demo_defs)
  have o: "stage1 demo_browser open_url = Loaded 640 480"
    by (simp add: stage1_def demo_defs)
  have p: "stage1 demo_browser slow_url = Failed \<and> stage2 demo_browser slow_url = Loaded 800 600"
    by (simp add: stage1_def stage2_def demo_defs)
  have c: "stage1 demo_browser closed_url = Failed \<and> stage2 demo_browser closed_url = Failed \<and>
           stage3 demo_browser closed_url = Loaded 300 200"
    by (simp add: stage1_def stage2_def stage3_def demo_defs)
  have 1: "Cell 4 |\<notin>| taintedIndices (fst (snd (loadImageFromFile demo_browser tainted_centre png_file (Cell 4))))"
  proof -
    from taint_follows_acquisition_path[where b = demo_browser and f = png_file and iw = 100
        and ih = 200 and s = tainted_centre and i = "Cell 4", THEN conjunct1, THEN mp, OF f]
    obtain s' fx where
      "loadImageFromFile demo_browser tainted_centre png_file (Cell 4) = (Resolved, s', fx)"
      and "Cell 4 |\<notin>| taintedIndices s'" by blast
    then show ?thesis by simp
  qed
  have 2: "Cell 4 |\<notin>| taintedIndices (fst (snd (loadImageFromUrl demo_browser tainted_centre open_url (Cell 4))))"
  proof -
    from taint_follows_acquisition_path[where b = demo_browser and iw = 640 and ih = 480
        and s = tainted_centre and i = "Cell 4" and url = open_url,
        THEN conjunct2, THEN conjunct1, THEN mp, OF o]
    obtain s' fx where
      "loadImageFromUrl demo_browser tainted_centre open_url (Cell 4) = (Resolved, s', fx)"
      and "Cell 4 |\<notin>| taintedIndices s'" by blast
    then show ?thesis by simp
  qed
  have 3: "Cell 4 |\<notin>| taintedIndices (fst (snd (loadImageFromUrl demo_browser tainted_centre slow_url (Cell 4))))"
  proof -
    from taint_follows_acquisition_path[where b = demo_browser and iw = 800 and ih = 600
        and s = tainted_centre and i = "Cell 4" and url = slow_url,
        THEN conjunct2, THEN conjunct2, THEN conjunct1, THEN mp, OF p]
    obtain s' fx where
      "loadImageFromUrl demo_browser tainted_centre slow_url (Cell 4) = (Resolved, s', fx)"
      and "Cell 4 |\<notin>| taintedIndices s'" by blast
    then show ?thesis by simp
  qed
  have 4: "Cell 4 |\<in>| taintedIndices (fst (snd (loadImageFromUrl demo_browser init_app closed_url (Cell 4))))"
  proof -
    from taint_follows_acquisition_path[where b = demo_browser and iw = 300 and ih = 200
        and s = init_app and i = "Cell 4" and url = closed_url,
        THEN conjunct2, THEN conjunct2, THEN conjunct2, THEN mp, OF c]
    obtain s' fx where
      "loadImageFromUrl demo_browser init_app closed_url (Cell 4) = (Resolved, s', fx)"
      and "Cell 4 |\<in>| taintedIndices s'" by blast
    then show ?thesis by simp
  qed
  show ?thesis using f o p c 1 2 3 4 by simp
qed

text \<open>
  C3. An acquisition that fails completely leaves every field as it was, and so the
  slot and the taint mark of cell \<open>i\<close>. A local file that does not decode rejects the
  promise and shows nothing; a URL whose three stages fail logs two messages and an
  error to the console and redraws. Neither path opens a dialog.
\<close>

theorem failed_acquisition_leaves_state:
  "(fileLoad b f = Failed \<longrightarrow> loadImageFromFile b s f i = (Rejected, s, [])) \<and>
   (stage1 b url = Failed \<and> stage2 b url = Failed \<and> stage3 b url = Failed \<longrightarrow>
      loadImageFromUrl b s url i =
        (Resolved, s,
         [ConsoleLog ''Direct CORS failed, trying proxy...'',
          ConsoleLog ''Proxy failed, falling back to tainted mode...'',
          ConsoleError ''All loading attempts failed'',
          Draw (draw s)]) \<and>
      (\<forall>m. Alert m \<notin> set (snd (snd (loadImageFromUrl b s url i)))))"
  by (auto simp: fileLoad_def stage1_def stage2_def stage3_def loadImageFromFile_def
      loadImageFromUrl_def loadStage2_def loadStage3_def loadImage_def
      split: option.splits load_outcome.splits)

text \<open>A corrupt file and a dead URL aimed at the tainted cell 4 of the example state.\<close>

theorem failed_acquisition_leaves_state_witness:
  "fileLoad demo_browser corrupt_file = Failed \<and>
   loadImageFromFile demo_browser tainted_centre corrupt_file (Cell 4) = (Rejected, tainted_centre, []) \<and>
   stage1 demo_browser dead_url = Failed \<and> stage2 demo_browser dead_url = Failed \<and>
   stage3 demo_browser dead_url = Failed \<and>
   fst (snd (loadImageFromUrl demo_browser tainted_centre dead_url (Cell 4))) = tainted_centre"
proof -
  have f: "fileLoad demo_browser corrupt_file = Failed"
    by (simp add: fileLoad_def corrupt_file_def demo_defs)
  have d: "stage1 demo_browser dead_url = Failed \<and> stage2 demo_browser dead_url = Failed \<and>
           stage3 demo_browser dead_url = Failed"
    by (simp add: stage1_def stage2_def stage3_def demo_defs)
  show ?thesis
    using f d failed_acquisition_leaves_state[of demo_browser corrupt_file tainted_centre "Cell 4" dead_url]
    by simp
qed

section \<open>Cover-fit\<close>




section \<open>Drops\<close>

text \<open>
  C7. For a drop that carries no file, the source is chosen by strict priority: the
  source of the image element found in the HTML payload, else the URI list, else the
  plain text when it starts like a URL or an image data URI. An image source found in
  the HTML payload wins over any URI list. With no candidate the drop changes nothing;
  with a candidate and a cell index in range the drop is the load of that source by URL.
\<close>

theorem drop_source_priority:
  "dropSource b dt =
     (case prioritySource (htmlImgSrc b dt) (getData dt ''text/uri-list'')
             (getData dt ''text/plain'')
      of Some a \<Rightarrow> a | None \<Rightarrow> []) \<and>
   (htmlImgSrc b dt = Some A \<longrightarrow> dropSource b dt = A) \<and>
   (dataTransfer e = Some dt \<and> files dt = [] \<and>
    prioritySource (htmlImgSrc b dt) (getData dt ''text/uri-list'')
      (getData dt ''text/plain'') = None
      \<longrightarrow> handleDrop b s e = (Resolved, s, [])) \<and>
   (dataTransfer e = Some dt \<and> files dt = [] \<and>
    prioritySource (htmlImgSrc b dt) (getData dt ''text/uri-list'')
      (getData dt ''text/plain'') = Some src \<and>
    index (getGridPosition b (clientX e) (clientY e)) = Num v \<and> 0 \<le> v \<and> v \<le> 8
      \<longrightarrow> handleDrop b s e = loadImageFromUrl b s src (Cell (nat \<lfloor>v\<rfloor>)))"
proof -
  have src: "dropSource b dt =
     (case prioritySource (htmlImgSrc b dt) (getData dt ''text/uri-list'')
             (getData dt ''text/plain'')
      of Some a \<Rightarrow> a | None \<Rightarrow> [])"
    by (auto simp: dropSource_def prioritySource_def htmlImgSrc_def looksLikeUrl_def Let_def
        split: option.splits)
  have nonempty: "a \<noteq> []"
    if "prioritySource (htmlImgSrc b dt) (getData dt ''text/uri-list'')
          (getData dt ''text/plain'') = Some a"
    for a
    using that
    by (auto simp: prioritySource_def htmlImgSrc_def looksLikeUrl_def Let_def
        split: option.splits if_splits)
  have a: "htmlImgSrc b dt = Some A \<longrightarrow> dropSource b dt = A"
    by (simp add: src prioritySource_def)
  have n: "dataTransfer e = Some dt \<and> files dt = [] \<and>
    prioritySource (htmlImgSrc b dt) (getData dt ''text/uri-list'')
      (getData dt ''text/plain'') = None
      \<longrightarrow> handleDrop b s e = (Resolved, s, [])"
    by (auto simp: handleDrop_def src Let_def split: option.splits)
  have l: "dataTransfer e = Some dt \<and> files dt = [] \<and>
    prioritySource (htmlImgSrc b dt) (getData dt ''text/uri-list'')
      (getData dt ''text/plain'') = Some src \<and>
    index (getGridPosition b (clientX e) (clientY e)) = Num v \<and> 0 \<le> v \<and> v \<le> 8
      \<longrightarrow> handleDrop b s e = loadImageFromUrl b s src (Cell (nat \<lfloor>v\<rfloor>))"
    using nonempty[of src] by (auto simp: handleDrop_def src Let_def toIndex_def)
  show ?thesis using src a n l by blast
qed

text \<open>
  A drop with an image element in its HTML payload and a different URI list resolves to
  the image's source and loads it into cell 4; a drop with no payload changes nothing.
\<close>

theorem drop_source_priority_witness:
  "htmlImgSrc demo_browser \<lparr>files = [], getData = rich_payload\<rparr> = Some closed_url \<and>
   getData \<lparr>files = [], getData = rich_payload\<rparr> ''text/uri-list''
     = ''https://page.example/gallery'' \<and>
   dropSource demo_browser \<lparr>files = [], getData = rich_payload\<rparr> = closed_url \<and>
   prioritySource (htmlImgSrc demo_browser \<lparr>files = [], getData = empty_payload\<rparr>) [] [] = None \<and>
   handleDrop demo_browser tainted_centre (centre_drop \<lparr>files = [], getData = empty_payload\<rparr>)
     = (Resolved, tainted_centre, []) \<and>
   index (getGridPosition demo_browser 235 320) = Num 4 \<and>
   handleDrop demo_browser init_app (centre_drop \<lparr>files = [], getData = rich_payload\<rparr>)
     = loadImageFromUrl demo_browser init_app closed_url (Cell 4)"
proof -
  have a: "htmlImgSrc demo_browser \<lparr>files = [], getData = rich_payload\<rparr> = Some closed_url"
    by (simp add: htmlImgSrc_def rich_payload_def demo_defs)
  have n: "prioritySource (htmlImgSrc demo_browser \<lparr>files = [], getData = empty_payload\<rparr>) [] []
             = None"
    by (simp add: prioritySource_def htmlImgSrc_def empty_payload_def looksLikeUrl_def)
  have g: "index (getGridPosition demo_browser 235 320) = Num 4"
    by (simp add: centre_position)
  have ps: "prioritySource (htmlImgSrc demo_browser \<lparr>files = [], getData = rich_payload\<rparr>)
              (rich_payload ''text/uri-list'') (rich_payload ''text/plain'') = Some closed_url"
    by (simp add: a prioritySource_def)
  show ?thesis
    using a n g ps
      drop_source_priority[where b = demo_browser
        and dt = "\<lparr>files = [], getData = rich_payload\<rparr>"
        and A = closed_url and src = closed_url and s = init_app
        and e = "centre_drop \<lparr>files = [], getData = rich_payload\<rparr>"
        and v = 4]
      drop_source_priority[where b = demo_browser
        and dt = "\<lparr>files = [], getData = empty_payload\<rparr>"
        and s = tainted_centre
        and e = "centre_drop \<lparr>files = [], getData = empty_payload\<rparr>"]
    by (simp add: centre_drop_def rich_payload_def empty_payload_def)
qed

text \<open>
  C10, as amended. A drop whose first file has a type that does not start with
  \<open>image/\<close> starts no acquisition and leaves every field (slots, tainted indices,
  pending selection) as it was, whatever else the drop carries: only \<open>files[0]\<close> is
  looked at, and the branch that reads the URL payloads is the \<open>else\<close> of the test for
  files.
\<close>

theorem drop_non_image_file_ignored:
  "dataTransfer e = Some dt \<Longrightarrow> files dt = f # fs \<Longrightarrow> \<not> prefix ''image/'' (file_type f) \<Longrightarrow>
   handleDrop b s e = (Resolved, s, [])"
  by (simp add: handleDrop_def Let_def)

text \<open>A PDF dropped on cell 4 together with an image file and URL payloads.\<close>

theorem drop_non_image_file_ignored_witness:
  "\<not> prefix ''image/'' (file_type pdf_file) \<and>
   rich_payload ''text/uri-list'' \<noteq> [] \<and>
   handleDrop demo_browser tainted_centre
     (centre_drop \<lparr>files = [pdf_file, png_file], getData = rich_payload\<rparr>)
     = (Resolved, tainted_centre, [])"
proof -
  have t: "\<not> prefix ''image/'' (file_type pdf_file)"
    by (simp add: pdf_file_def)
  show ?thesis
    using t drop_non_image_file_ignored[
        of "centre_drop \<lparr>files = [pdf_file, png_file], getData = rich_payload\<rparr>"
        "\<lparr>files = [pdf_file, png_file], getData = rich_payload\<rparr>" pdf_file "[png_file]"
        demo_browser tainted_centre]
    by (simp add: centre_drop_def rich_payload_def)
qed

text \<open>
  C10 as stated fails. A drop on cell 4 that delivers an image file and then a PDF
  delivers a file whose type does not start with \<open>image/\<close>, and it starts the
  acquisition of the image file: the slot of cell 4 is filled.
\<close>

theorem drop_non_image_file_counterexample:
  "dataTransfer mixed_drop = Some \<lparr>files = [png_file, pdf_file], getData = empty_payload\<rparr> \<and>
   pdf_file \<in> set [png_file, pdf_file] \<and>
   \<not> prefix ''image/'' (file_type pdf_file) \<and>
   handleDrop demo_browser init_app mixed_drop
     = loadImageFromFile demo_browser init_app png_file (Cell 4) \<and>
   fst (snd (handleDrop demo_browser init_app mixed_drop)) = local_centre \<and>
   array_get (images init_app) (Cell 4) = None \<and>
   array_get (images local_centre) (Cell 4) \<noteq> None"
proof -
  have h: "handleDrop demo_browser init_app mixed_drop
             = loadImageFromFile demo_browser init_app png_file (Cell 4)"
    by (simp add: mixed_drop_def centre_drop_files png_file_def)
  have l: "fst (snd (loadImageFromFile demo_browser init_app png_file (Cell 4))) = local_centre"
    by (simp add: load_defs png_file_def demo_defs init_app_def local_centre_def Let_def)
  have d: "dataTransfer mixed_drop
             = Some \<lparr>files = [png_file, pdf_file], getData = empty_payload\<rparr>"
    by (simp add: mixed_drop_def centre_drop_def)
  have p: "\<not> prefix ''image/'' (file_type pdf_file)"
    by (simp add: pdf_file_def)
  have a: "array_get (images init_app) (Cell 4) = None"
    "array_get (images local_centre) (Cell 4) \<noteq> None"
    by (simp_all add: init_app_def local_centre_def)
  show ?thesis using h l d p a by simp
qed

section \<open>The invariant of the tainted indices\<close>


text \<open>
  The ordinary path: the remote image dropped on the middle cell of the example browser
  marks index 4, and slot 4 is filled.
\<close>

lemma tainting_session_marks_cell: "run tainting_session init_app = tainted_centre"
  by (simp add: tainting_session_def step_def centre_drop_url)
    (simp add: dropSource_def rich_payload_def load_defs demo_defs init_app_def
      tainted_centre_def Let_def)

text \<open>
  Apart from NaN the invariant holds: in every state that a session reaches, the array
  has its nine slots, every tainted index that is the number of a cell is below 9 and
  names a filled slot, and a pending selection is the number of a cell.
\<close>

lemma cells_inv_pending:
  "cells_inv s \<Longrightarrow> (case p of None \<Rightarrow> True | Some (Cell k) \<Rightarrow> k < 9 | Some NotANumber \<Rightarrow> False)
     \<Longrightarrow> cells_inv (s\<lparr>pendingCellIndex := p\<rparr>)"
  by (auto simp: cells_inv_def split: js_index.splits)

lemma floor_cell: "0 \<le> a \<Longrightarrow> a \<le> 8 \<Longrightarrow> nat \<lfloor>a\<rfloor> < 9" for a :: real
proof -
  assume "0 \<le> a" "a \<le> 8"
  then have "\<lfloor>a\<rfloor> < 9" "0 \<le> \<lfloor>a\<rfloor>" by (simp_all add: floor_less_iff)
  then show ?thesis by linarith
qed

lemma setImage_cells:
  assumes "cells_inv s" "valid_target i"
  shows "length (slots (array_set (images s) i img)) = 9"
    and "k < 9 \<Longrightarrow> slots (images s) ! k \<noteq> None \<Longrightarrow> slots (array_set (images s) i img) ! k \<noteq> None"
    and "i = Cell k \<Longrightarrow> slots (array_set (images s) i img) ! k \<noteq> None"
  using assms by (cases i; auto simp: cells_inv_def valid_target_def nth_list_update)+

lemma cells_inv_store:
  assumes "cells_inv s" "valid_target i"
  shows "cells_inv (s\<lparr>images := array_set (images s) i img,
                       taintedIndices := taintedIndices s |-| {|i|}\<rparr>)"
    and "cells_inv (s\<lparr>images := array_set (images s) i img,
                       taintedIndices := finsert i (taintedIndices s)\<rparr>)"
proof -
  note l = setImage_cells[OF assms]
  have t: "\<And>k. Cell k |\<in>| taintedIndices s \<Longrightarrow> k < 9 \<and> slots (images s) ! k \<noteq> None"
    using assms(1) by (auto simp: cells_inv_def split: js_index.splits)
  have v: "\<And>k. i = Cell k \<Longrightarrow> k < 9" using assms(2) by (simp add: valid_target_def)
  have p: "case pendingCellIndex s of None \<Rightarrow> True | Some (Cell k) \<Rightarrow> k < 9
           | Some NotANumber \<Rightarrow> False"
    using assms(1) by (simp add: cells_inv_def)
  show "cells_inv (s\<lparr>images := array_set (images s) i img,
                       taintedIndices := taintedIndices s |-| {|i|}\<rparr>)"
    using l(1) l(2) t p by (auto simp: cells_inv_def split: js_index.splits)
  show "cells_inv (s\<lparr>images := array_set (images s) i img,
                       taintedIndices := finsert i (taintedIndices s)\<rparr>)"
    using l(1) l(2) l(3) t v p by (auto simp: cells_inv_def split: js_index.splits)
qed

lemma loadImageFromFile_cells:
  assumes "cells_inv s" "valid_target i"
  shows "cells_inv (fst (snd (loadImageFromFile b s f i)))"
  using assms cells_inv_store(1)[OF assms]
  by (auto simp: loadImageFromFile_def setImage_def Let_def
      split: option.splits load_outcome.splits)

lemma loadImageFromUrl_cells:
  assumes "cells_inv s" "valid_target i"
  shows "cells_inv (fst (snd (loadImageFromUrl b s url i)))"
  using assms cells_inv_store[OF assms]
  by (auto simp: loadImageFromUrl_def loadStage2_def loadStage3_def loadImage_def Let_def
      split: option.splits load_outcome.splits)

lemma handleClick_cells: "cells_inv s \<Longrightarrow> cells_inv (fst (handleClick b s e))"
proof -
  assume s: "cells_inv s"
  show ?thesis
  proof (cases "index (getGridPosition b (clientX e) (clientY e))")
    case (Num a)
    then show ?thesis
      using s
      by (auto simp: handleClick_def Let_def toIndex_def floor_cell intro!: cells_inv_pending)
  qed (use s in \<open>simp_all add: handleClick_def Let_def\<close>)
qed

lemma handleFileSelect_cells:
  assumes "cells_inv s"
  shows "cells_inv (fst (snd (handleFileSelect b s fs)))"
proof (cases "pendingCellIndex s")
  case None
  then show ?thesis using assms by (simp add: handleFileSelect_def)
next
  case (Some i)
  then have i: "valid_target i"
    using assms by (auto simp: cells_inv_def valid_target_def split: js_index.splits)
  show ?thesis
  proof (cases fs)
    case Nil
    then show ?thesis using assms Some by (simp add: handleFileSelect_def cells_inv_pending)
  next
    case (Cons f rest)
    obtain p s1 fx where r: "loadImageFromFile b s f i = (p, s1, fx)"
      by (cases "loadImageFromFile b s f i")
    with loadImageFromFile_cells[OF assms i, of b f] have "cells_inv s1" by simp
    then show ?thesis using Some Cons r
      by (cases p) (simp_all add: handleFileSelect_def cells_inv_pending)
  qed
qed

lemma toIndex_valid:
  "\<not> (js_less v (Num 0) \<or> js_less (Num 8) v) \<Longrightarrow> valid_target (toIndex v)"
  by (cases v) (auto simp: toIndex_def valid_target_def floor_cell)

lemma handleDrop_cells:
  assumes "cells_inv s"
  shows "cells_inv (fst (snd (handleDrop b s e)))"
proof (cases "dataTransfer e")
  case None
  then show ?thesis using assms by (simp add: handleDrop_def)
next
  case (Some dt)
  define v where "v = index (getGridPosition b (clientX e) (clientY e))"
  show ?thesis
  proof (cases "js_less v (Num 0) \<or> js_less (Num 8) v")
    case True
    then show ?thesis using assms Some by (simp add: handleDrop_def v_def)
  next
    case False
    note t = toIndex_valid[OF False]
    show ?thesis
      using assms Some False loadImageFromFile_cells[OF assms t]
        loadImageFromUrl_cells[OF assms t]
      by (auto simp: handleDrop_def v_def[symmetric] Let_def split: list.splits)
  qed
qed

lemma step_cells: "cells_inv s \<Longrightarrow> cells_inv (step b ev s)"
  using handleClick_cells handleFileSelect_cells handleDrop_cells
  by (cases ev) (simp_all add: step_def)

lemma run_cells: "cells_inv s \<Longrightarrow> cells_inv (run evs s)"
proof (induction evs arbitrary: s)
  case Nil
  then show ?case by simp
next
  case (Cons a evs)
  obtain b ev where a: "a = (b, ev)" by (cases a)
  show ?case using Cons.IH[OF step_cells[OF Cons.prems, of b ev]] a by simp
qed

lemma reachable_cells:
  "Cell i |\<in>| taintedIndices (run evs init_app) \<Longrightarrow>
     i < 9 \<and> array_get (images (run evs init_app)) (Cell i) \<noteq> None"
proof -
  assume i: "Cell i |\<in>| taintedIndices (run evs init_app)"
  have "cells_inv init_app" by (simp add: cells_inv_def init_app_def)
  then have "cells_inv (run evs init_app)" by (rule run_cells)
  then show ?thesis using i by (auto simp: cells_inv_def split: js_index.splits)
qed

text \<open>
  The same on a canvas that is laid out, with the far pointer: the index is NaN by
  overflow, and the drop of a remote image adds NaN to the tainted indices.
\<close>

lemma far_drop_taints:
  "taintedIndices (run far_session init_app) = {|NotANumber|} \<and>
   slots (images (run far_session init_app)) = replicate 9 None"
proof -
  have i: "index (getGridPosition demo_browser (- (2 ^ 1023)) (2 ^ 1023)) = NaN"
    by (simp only: overflow_position grid_position.select_convs)
  have h: "handleDrop demo_browser s far_drop
             = loadImageFromUrl demo_browser s closed_url NotANumber" for s
    using i
    by (simp add: handleDrop_def far_drop_def toIndex_def Let_def dropSource_def
        rich_payload_def demo_browser_def closed_url_def)
  show ?thesis
    by (simp add: far_session_def step_def h)
      (simp add: load_defs demo_defs init_app_def Let_def)
qed

end
